theory Spec2Isabelle
  imports Main "HOL-Library.Word" "HOL-Library.Multiset"
begin

section \<open>Strings\<close>

text \<open>
  A JavaScript string is a sequence of UTF-16 code units. Literals of the source are
  written \<open>lit ''...''\<close>; all of them are ASCII.
\<close>

type_synonym jsstring = "16 word list"

definition lit :: "string \<Rightarrow> jsstring" where
  "lit s = map (\<lambda>c. of_nat (of_char c)) s"

text \<open>
  \<open>String.prototype.trim\<close> removes WhiteSpace and LineTerminator code points from both
  ends (ECMAScript: TAB, VT, FF, SP, NBSP, ZWNBSP, the category Zs, LF, CR, LS, PS).
  All of them are single code units.
\<close>

definition is_whitespace :: "16 word \<Rightarrow> bool" where
  "is_whitespace c \<longleftrightarrow>
     c = 0x0009 \<or> c = 0x000A \<or> c = 0x000B \<or> c = 0x000C \<or> c = 0x000D \<or> c = 0x0020 \<or>
     c = 0x00A0 \<or> c = 0x1680 \<or> (0x2000 \<le> c \<and> c \<le> 0x200A) \<or> c = 0x2028 \<or>
     c = 0x2029 \<or> c = 0x202F \<or> c = 0x205F \<or> c = 0x3000 \<or> c = 0xFEFF"

definition trim :: "jsstring \<Rightarrow> jsstring" where
  "trim s = rev (dropWhile is_whitespace (rev (dropWhile is_whitespace s)))"

text \<open>\<open>s.substring(0, n)\<close> for \<open>0 \<le> n\<close>: the first \<open>n\<close> code units, or all of \<open>s\<close>.\<close>

definition substring0 :: "jsstring \<Rightarrow> nat \<Rightarrow> jsstring" where
  "substring0 s n = take n s"

text \<open>
  A value of type \<open>string | undefined\<close> inside a template literal: \<open>undefined\<close> is
  printed as the text \<open>undefined\<close>.
\<close>

definition template_str :: "jsstring option \<Rightarrow> jsstring" where
  "template_str v = (case v of None \<Rightarrow> lit ''undefined'' | Some s \<Rightarrow> s)"

text \<open>\<open>s.split(',')\<close>: the pieces between commas; never the empty array.\<close>

fun split_comma :: "jsstring \<Rightarrow> jsstring list" where
  "split_comma [] = [[]]"
| "split_comma (c # cs) =
     (if c = 0x2C then [] # split_comma cs
      else (case split_comma cs of
              [] \<Rightarrow> [[c]]
            | p # ps \<Rightarrow> (c # p) # ps))"

text \<open>\<open>xs[1]\<close> on an array: \<open>undefined\<close> when the array has fewer than two elements.\<close>

definition index1 :: "'a list \<Rightarrow> 'a option" where
  "index1 xs = (case xs of _ # y # _ \<Rightarrow> Some y | _ \<Rightarrow> None)"

section \<open>Data model (types.ts)\<close>

record video =
  video_id :: jsstring
  videoUrl :: jsstring
  title :: jsstring
  description :: jsstring

record historyVideo = video +
  createdAt :: int

datatype view = Gallery | History

section \<open>HistoryPage\<close>

text \<open>
  \<open>Array.prototype.sort\<close> with a comparator is stable: \<open>a\<close> stays before \<open>b\<close> unless
  \<open>cmp(a, b) > 0\<close>. \<open>Date.getTime\<close> of a valid date is an integer.
\<close>

fun insert_by :: "('a \<Rightarrow> 'a \<Rightarrow> int) \<Rightarrow> 'a \<Rightarrow> 'a list \<Rightarrow> 'a list" where
  "insert_by cmp x [] = [x]"
| "insert_by cmp x (y # ys) = (if cmp x y \<le> 0 then x # y # ys else y # insert_by cmp x ys)"

definition array_sort :: "('a \<Rightarrow> 'a \<Rightarrow> int) \<Rightarrow> 'a list \<Rightarrow> 'a list" where
  "array_sort cmp xs = foldr (insert_by cmp) xs []"

text \<open>
  Arrays are objects on a heap, so that the copy \<open>[...videos]\<close> and the in-place sort
  of the copy are what they are in the source. A reference is an index into the heap.
\<close>

type_synonym heap = "historyVideo list list"

record history_card =
  key :: jsstring
  card_video :: historyVideo
  isLoading :: bool

datatype history_page = EmptyState | Cards "history_card list"

definition spread :: "heap \<Rightarrow> nat \<Rightarrow> nat \<times> heap" where
  "spread h r = (length h, h @ [h ! r])"

definition sort_in_place :: "(historyVideo \<Rightarrow> historyVideo \<Rightarrow> int) \<Rightarrow> heap \<Rightarrow> nat \<Rightarrow> nat \<times> heap" where
  "sort_in_place cmp h r = (r, h[r := array_sort cmp (h ! r)])"

definition HistoryPage :: "heap \<Rightarrow> nat \<Rightarrow> jsstring option \<Rightarrow> (history_page \<times> heap) option" where
  "HistoryPage h videos loadingVideoId =
     (if \<not> videos < length h then None
      else if length (h ! videos) = 0 then Some (EmptyState, h)
      else (case spread h videos of
              (copy, h1) \<Rightarrow>
                (case sort_in_place (\<lambda>a b. createdAt b - createdAt a) h1 copy of
                   (sortedVideos, h2) \<Rightarrow>
                     Some (Cards (map (\<lambda>v. \<lparr>key = video_id v, card_video = v,
                                             isLoading = (loadingVideoId = Some (video_id v))\<rparr>)
                                    (h2 ! sortedVideos)),
                           h2))))"

section \<open>The outside world\<close>

text \<open>
  Everything the program calls but does not define is a field of the environment: the
  API key of \<open>process.env\<close>, the SDK (the client built by \<open>new GoogleGenAI\<close>), \<open>fetch\<close>,
  \<open>decodeURIComponent\<close>, \<open>FileReader.readAsDataURL\<close>, \<open>crypto.randomUUID\<close> and the clock.
  A promise of the outside world that rejects is \<open>Inl\<close> of the error. The promises of the
  SDK, of \<open>fetch\<close> and of \<open>res.blob()\<close> are taken to settle; the promise that
  \<open>bloblToBase64\<close> builds settles only when the reader loads. \<open>console\<close> output and
  timers are effects like the calls to the SDK and to \<open>fetch\<close>; \<open>randomUUID\<close> and the
  clock are read once by a handler.
\<close>

datatype error =
    Error jsstring
  | TypeError
  | URIError
  | Rejection jsstring

record generateVideosParameters =
  model :: jsstring
  prompt :: jsstring
  numberOfVideos :: nat
  aspectRatio :: jsstring

record sdk_video =
  uri :: "jsstring option"

record generatedVideo =
  video :: "sdk_video option"

record generateVideosResponse =
  generatedVideos :: "generatedVideo list option"

record operation =
  op_done :: bool
  response :: "generateVideosResponse option"

record blob =
  mime :: jsstring
  bytes :: "8 word list"

record fetch_response =
  ok :: bool
  status :: nat
  statusText :: jsstring
  blob :: "error + blob"

text \<open>
  The remote job changes with time: \<open>getVideosOperation\<close> takes the number of polls made
  before the call, so the environment fixes the whole sequence of statuses.
\<close>

record ai_client =
  generateVideos :: "generateVideosParameters \<Rightarrow> error + operation"
  getVideosOperation :: "nat \<Rightarrow> operation \<Rightarrow> error + operation"

text \<open>
  \<open>decodeURIComponent\<close> is \<open>None\<close> where the builtin throws a URIError; \<open>readAsDataURL\<close>
  is \<open>None\<close> where the reader never fires \<open>onload\<close>.
\<close>

record env =
  API_KEY :: "jsstring option"
  GoogleGenAI :: "jsstring option \<Rightarrow> ai_client"
  fetch :: "jsstring \<Rightarrow> error + fetch_response"
  decodeURIComponent :: "jsstring \<Rightarrow> jsstring option"
  readAsDataURL :: "blob \<Rightarrow> jsstring option"
  randomUUID :: jsstring
  now :: int

datatype effect =
    ConsoleLog "jsstring list"
  | ConsoleError jsstring error
  | GenerateVideos generateVideosParameters
  | SetTimeout nat
  | GetVideosOperation operation
  | Fetch jsstring

datatype 'a promise = Resolved 'a | Rejected error | Pending

section \<open>The generation workflow (generateVideoFromText)\<close>

definition VEO_MODEL_NAME :: jsstring where
  "VEO_MODEL_NAME = lit ''veo-2.0-generate-001''"

definition ai :: "env \<Rightarrow> ai_client" where
  "ai env = GoogleGenAI env (API_KEY env)"

definition bloblToBase64 :: "env \<Rightarrow> blob \<Rightarrow> jsstring option promise" where
  "bloblToBase64 env b =
     (case readAsDataURL env b of
        None \<Rightarrow> Pending
      | Some url \<Rightarrow> Resolved (index1 (split_comma url)))"

fun number_str :: "nat \<Rightarrow> jsstring" where
  "number_str n =
     (if n < 10 then [of_nat (48 + n)]
      else number_str (n div 10) @ [of_nat (48 + n mod 10)])"

declare number_str.simps [simp del]

text \<open>
  The \<open>while (!operation.done)\<close> loop. \<open>n\<close> counts the polls made so far and \<open>tr\<close> holds
  the effects so far. The loop has no exit but \<open>done\<close> and a rejected poll, so the model
  is a partial function: \<open>None\<close> is the loop that never ends.
\<close>

partial_function (option) poll_loop ::
  "ai_client \<Rightarrow> nat \<Rightarrow> effect list \<Rightarrow> operation \<Rightarrow> (effect list \<times> (error + operation)) option"
where
  "poll_loop client n tr operation =
     (if \<not> op_done operation then
        (let tr' = tr @ [SetTimeout 10000, ConsoleLog [lit ''...Generating...''],
                         GetVideosOperation operation]
         in case getVideosOperation client n operation of
              Inl e \<Rightarrow> Some (tr', Inl e)
            | Inr operation' \<Rightarrow> poll_loop client (Suc n) tr' operation')
      else Some (tr, Inr operation))"

text \<open>
  The body of \<open>videos.map(async (generatedVideo) => ...)\<close> for one video: the effects of
  its synchronous start and the promise it returns.
\<close>

definition key_url :: "env \<Rightarrow> jsstring \<Rightarrow> jsstring" where
  "key_url env url = url @ lit ''&key='' @ template_str (API_KEY env)"

definition fetch_video :: "env \<Rightarrow> generatedVideo \<Rightarrow> effect list \<times> jsstring option promise" where
  "fetch_video env generatedVideo =
     (case video generatedVideo of
        None \<Rightarrow> ([], Rejected TypeError)
      | Some v \<Rightarrow>
          (case decodeURIComponent env (template_str (uri v)) of
             None \<Rightarrow> ([], Rejected URIError)
           | Some url \<Rightarrow>
               ([Fetch (key_url env url)],
                case fetch env (key_url env url) of
                  Inl e \<Rightarrow> Rejected e
                | Inr res \<Rightarrow>
                    if \<not> ok res then
                      Rejected (Error (lit ''Failed to fetch video: '' @ number_str (status res)
                                       @ lit '' '' @ statusText res))
                    else (case blob res of
                            Inl e \<Rightarrow> Rejected e
                          | Inr b \<Rightarrow> bloblToBase64 env b))))"

text \<open>
  \<open>Promise.all\<close>: rejected as soon as one promise is rejected, fulfilled when all are,
  never settled otherwise. When several promises reject, the first of the list is taken.
\<close>

fun promise_all :: "'a promise list \<Rightarrow> 'a list promise" where
  "promise_all [] = Resolved []"
| "promise_all (Rejected e # ps) = Rejected e"
| "promise_all (Pending # ps) =
     (case promise_all ps of Rejected e \<Rightarrow> Rejected e | _ \<Rightarrow> Pending)"
| "promise_all (Resolved x # ps) =
     (case promise_all ps of
        Resolved xs \<Rightarrow> Resolved (x # xs)
      | Rejected e \<Rightarrow> Rejected e
      | Pending \<Rightarrow> Pending)"

text \<open>\<open>await\<close>: a promise that never settles never returns.\<close>

definition await :: "'a promise \<Rightarrow> (error + 'a) option" where
  "await p = (case p of Resolved x \<Rightarrow> Some (Inr x) | Rejected e \<Rightarrow> Some (Inl e) | Pending \<Rightarrow> None)"

definition video_params :: "jsstring \<Rightarrow> nat \<Rightarrow> generateVideosParameters" where
  "video_params p k =
     \<lparr>model = VEO_MODEL_NAME, prompt = p, numberOfVideos = k, aspectRatio = lit ''16:9''\<rparr>"

definition fetch_all ::
  "env \<Rightarrow> effect list \<Rightarrow> operation \<Rightarrow> (effect list \<times> (error + jsstring option list)) option"
where
  "fetch_all env tr operation =
     (case response operation of
        None \<Rightarrow> Some (tr, Inl (Error (lit ''No videos generated'')))
      | Some resp \<Rightarrow>
          (case generatedVideos resp of
             None \<Rightarrow> Some (tr, Inl (Error (lit ''No videos generated'')))
           | Some videos \<Rightarrow>
               if length videos = 0 then Some (tr, Inl (Error (lit ''No videos generated'')))
               else (let tasks = map (fetch_video env) videos
                     in map_option (\<lambda>r. (tr @ concat (map fst tasks), r))
                          (await (promise_all (map snd tasks))))))"

definition generateVideoFromText ::
  "env \<Rightarrow> jsstring \<Rightarrow> nat \<Rightarrow> (effect list \<times> (error + jsstring option list)) option"
where
  "generateVideoFromText env p k =
     (case generateVideos (ai env) (video_params p k) of
        Inl e \<Rightarrow> Some ([GenerateVideos (video_params p k)], Inl e)
      | Inr operation \<Rightarrow>
          (case poll_loop (ai env) 0 [GenerateVideos (video_params p k)] operation of
             None \<Rightarrow> None
           | Some (tr, Inl e) \<Rightarrow> Some (tr, Inl e)
           | Some (tr, Inr operation') \<Rightarrow> fetch_all env tr operation'))"

section \<open>The application state (App)\<close>

record app_state =
  videos :: "video list"
  playingVideo :: "video option"
  editingVideo :: "video option"
  isSaving :: bool
  savingMessage :: jsstring
  generationError :: "jsstring list option"
  view :: view
  generatedVideosHistory :: "historyVideo list"
  newVideoPrompt :: jsstring
  loadingVideoId :: "jsstring option"
  isPlaying :: bool

text \<open>The \<open>useState\<close> initialisers; \<open>MOCK_VIDEOS\<close> (constants.ts) is a parameter.\<close>

definition initial_state :: "video list \<Rightarrow> app_state" where
  "initial_state MOCK_VIDEOS =
     \<lparr>videos = MOCK_VIDEOS, playingVideo = None, editingVideo = None, isSaving = False,
      savingMessage = [], generationError = None, view = Gallery,
      generatedVideosHistory = [], newVideoPrompt = [], loadingVideoId = None,
      isPlaying = False\<rparr>"

subsection \<open>Synchronous handlers\<close>

definition handlePlayVideo :: "video \<Rightarrow> app_state \<Rightarrow> app_state" where
  "handlePlayVideo v s =
     s\<lparr>loadingVideoId := Some (video_id v), playingVideo := Some v, isPlaying := True\<rparr>"

definition handleClosePlayer :: "app_state \<Rightarrow> app_state" where
  "handleClosePlayer s = s\<lparr>playingVideo := None, loadingVideoId := None, isPlaying := False\<rparr>"

definition handleVideoLoaded :: "app_state \<Rightarrow> app_state" where
  "handleVideoLoaded s = s\<lparr>loadingVideoId := None\<rparr>"

definition handleStartEdit :: "video \<Rightarrow> app_state \<Rightarrow> app_state" where
  "handleStartEdit v s =
     s\<lparr>playingVideo := None, isPlaying := False, loadingVideoId := None,
       editingVideo := Some v\<rparr>"

definition handleCancelEdit :: "app_state \<Rightarrow> app_state" where
  "handleCancelEdit s = s\<lparr>editingVideo := None\<rparr>"

subsection \<open>The two generating handlers\<close>

text \<open>
  Each asynchronous handler is cut at its one \<open>await\<close>: \<open>_begin\<close> is the part that runs
  at the click, \<open>_settle\<close> the part that runs when the promise of
  \<open>generateVideoFromText\<close> settles (the rest of \<open>try\<close>, then \<open>catch\<close> and \<open>finally\<close>).
  \<open>_settle\<close> reads the state of that later moment, as the functional updates
  \<open>setVideos((currentVideos) => ...)\<close> do.
\<close>

definition generation_failed_message :: "jsstring list" where
  "generation_failed_message =
     [lit ''Video generation failed.'',
      lit ''This may be due to an invalid API key or network issues.'']"

definition dquote :: jsstring where
  "dquote = [0x22]"

definition catch_finally :: "error \<Rightarrow> app_state \<Rightarrow> app_state \<times> effect list" where
  "catch_finally e s =
     (s\<lparr>generationError := Some generation_failed_message, isSaving := False\<rparr>,
      [ConsoleError (lit ''Video generation failed:'') e])"

definition data_url :: "jsstring option \<Rightarrow> jsstring" where
  "data_url videoSrc = lit ''data:'' @ lit ''video/mp4'' @ lit '';base64,'' @ template_str videoSrc"

definition handleSaveEdit_begin :: "app_state \<Rightarrow> app_state" where
  "handleSaveEdit_begin s =
     s\<lparr>editingVideo := None, savingMessage := lit ''Creating your remix...'',
       isSaving := True, generationError := None\<rparr>"

definition handleSaveEdit_settle ::
  "jsstring \<Rightarrow> int \<Rightarrow> video \<Rightarrow> error + jsstring option list \<Rightarrow> app_state \<Rightarrow>
   app_state \<times> effect list"
where
  "handleSaveEdit_settle uuid date originalVideo r s =
     (case r of
        Inl e \<Rightarrow> catch_finally e s
      | Inr [] \<Rightarrow> catch_finally (Error (lit ''Video generation returned no data.'')) s
      | Inr (videoSrc # _) \<Rightarrow>
          (let newVideo =
                 \<lparr>video_id = uuid, videoUrl = data_url videoSrc,
                  title = lit ''Remix of '' @ dquote @ title originalVideo @ dquote,
                  description = description originalVideo\<rparr>;
               newHistoryVideo = video.extend newVideo (historyVideo.fields date)
           in (s\<lparr>videos := newVideo # videos s,
                 generatedVideosHistory := newHistoryVideo # generatedVideosHistory s,
                 view := History, playingVideo := Some newVideo, isPlaying := True,
                 isSaving := False\<rparr>,
               [ConsoleLog [lit ''Generated video data received.'']])))"

definition handleSaveEdit ::
  "env \<Rightarrow> video \<Rightarrow> app_state \<Rightarrow> (app_state \<times> effect list) option"
where
  "handleSaveEdit env originalVideo s =
     (let promptText = description originalVideo
      in case generateVideoFromText env promptText 1 of
           None \<Rightarrow> None
         | Some (tr, r) \<Rightarrow>
             (case handleSaveEdit_settle (randomUUID env) (now env) originalVideo r
                     (handleSaveEdit_begin s) of
                (s', tr') \<Rightarrow>
                  Some (s', ConsoleLog [lit ''Generating video...'', promptText] # tr @ tr')))"

definition handleGenerateNewVideo_begin :: "app_state \<Rightarrow> app_state" where
  "handleGenerateNewVideo_begin s =
     s\<lparr>savingMessage := lit ''Generating your video...'', isSaving := True,
       generationError := None\<rparr>"

definition handleGenerateNewVideo_settle ::
  "jsstring \<Rightarrow> int \<Rightarrow> jsstring \<Rightarrow> error + jsstring option list \<Rightarrow> app_state \<Rightarrow>
   app_state \<times> effect list"
where
  "handleGenerateNewVideo_settle uuid date promptText r s =
     (case r of
        Inl e \<Rightarrow> catch_finally e s
      | Inr [] \<Rightarrow> catch_finally (Error (lit ''Video generation returned no data.'')) s
      | Inr (videoSrc # _) \<Rightarrow>
          (let newVideo =
                 \<lparr>video_id = uuid, videoUrl = data_url videoSrc,
                  title = lit ''Generated: '' @ dquote @ substring0 promptText 40
                          @ (if length promptText > 40 then lit ''...'' else []) @ dquote,
                  description = promptText\<rparr>;
               newHistoryVideo = video.extend newVideo (historyVideo.fields date)
           in (s\<lparr>videos := newVideo # videos s,
                 generatedVideosHistory := newHistoryVideo # generatedVideosHistory s,
                 newVideoPrompt := [], view := History, playingVideo := Some newVideo,
                 isPlaying := True, isSaving := False\<rparr>,
               [ConsoleLog [lit ''Generated video data received.'']])))"

definition handleGenerateNewVideo :: "env \<Rightarrow> app_state \<Rightarrow> (app_state \<times> effect list) option" where
  "handleGenerateNewVideo env s =
     (if trim (newVideoPrompt s) = [] then Some (s, [])
      else (let promptText = trim (newVideoPrompt s)
            in case generateVideoFromText env promptText 1 of
                 None \<Rightarrow> None
               | Some (tr, r) \<Rightarrow>
                   (case handleGenerateNewVideo_settle (randomUUID env) (now env) promptText r
                           (handleGenerateNewVideo_begin s) of
                      (s', tr') \<Rightarrow>
                        Some (s', ConsoleLog [lit ''Generating video from new prompt...'',
                                              promptText] # tr @ tr'))))"

section \<open>What App renders\<close>

text \<open>
  The element tree that \<open>App\<close> returns, as far as it decides which handlers can run.
  \<open>SavingProgressPage\<close> receives the message only; \<open>EditVideoPage\<close> receives \<open>onSave\<close> and
  \<open>onCancel\<close>; the player receives \<open>onClose\<close>, \<open>onEdit\<close> and \<open>onVideoLoaded\<close>.
\<close>

record gallery_page =
  textarea_value :: jsstring
  textarea_disabled :: bool
  generate_disabled :: bool
  generate_label :: jsstring
  active_view :: view

datatype main_content = EditVideoPage video | GalleryPage gallery_page

record main_ui =
  content :: main_content
  video_player :: "video option"
  error_modal :: "jsstring list option"

datatype ui = SavingProgressPage jsstring | MainUI main_ui

definition render :: "app_state \<Rightarrow> ui" where
  "render s =
     (if isSaving s then SavingProgressPage (savingMessage s)
      else MainUI
        \<lparr>content =
           (case editingVideo s of
              Some v \<Rightarrow> EditVideoPage v
            | None \<Rightarrow>
                GalleryPage
                  \<lparr>textarea_value = newVideoPrompt s,
                   textarea_disabled = isSaving s,
                   generate_disabled = (trim (newVideoPrompt s) = [] \<or> isSaving s),
                   generate_label =
                     (if isSaving s then lit ''Generating...'' else lit ''Generate Video''),
                   active_view = view s\<rparr>),
         video_player = (if isPlaying s then playingVideo s else None),
         error_modal = generationError s\<rparr>)"

datatype event =
    PlayVideo video
  | ClosePlayer
  | VideoLoaded
  | StartEdit
  | CancelEdit
  | SaveEdit video
  | GenerateNewVideo
  | SetView view
  | SetNewVideoPrompt jsstring
  | CloseError
  | SelectKey
  | Download
  | SharePlayer
  | ShareCard

text \<open>
  An event can happen when the element that carries its handler is rendered and not
  disabled. \<open>VideoGrid\<close> and \<open>EditVideoPage\<close> choose the argument of \<open>onPlayVideo\<close> and
  \<open>onSave\<close>; any video is allowed here. The last four events are handled outside
  \<open>App\<close>: \<open>onSelectKey\<close> of the error modal, \<open>handleDownload\<close> and \<open>handleShare\<close> of the
  player, \<open>handleShare\<close> of a history card (the cards are rendered in the history view).
\<close>

fun is_gallery :: "main_content \<Rightarrow> bool" where
  "is_gallery (GalleryPage g) = True"
| "is_gallery (EditVideoPage v) = False"

fun enabled :: "ui \<Rightarrow> event \<Rightarrow> bool" where
  "enabled (SavingProgressPage m) ev = False"
| "enabled (MainUI m) (PlayVideo v) = is_gallery (content m)"
| "enabled (MainUI m) ClosePlayer = (video_player m \<noteq> None)"
| "enabled (MainUI m) VideoLoaded = (video_player m \<noteq> None)"
| "enabled (MainUI m) StartEdit = (video_player m \<noteq> None)"
| "enabled (MainUI m) CancelEdit = (\<not> is_gallery (content m))"
| "enabled (MainUI m) (SaveEdit v) = (\<not> is_gallery (content m))"
| "enabled (MainUI m) GenerateNewVideo =
     (case content m of GalleryPage g \<Rightarrow> \<not> generate_disabled g | EditVideoPage v \<Rightarrow> False)"
| "enabled (MainUI m) (SetView v) = is_gallery (content m)"
| "enabled (MainUI m) (SetNewVideoPrompt t) =
     (case content m of GalleryPage g \<Rightarrow> \<not> textarea_disabled g | EditVideoPage v \<Rightarrow> False)"
| "enabled (MainUI m) CloseError = (error_modal m \<noteq> None)"
| "enabled (MainUI m) SelectKey = (error_modal m \<noteq> None)"
| "enabled (MainUI m) Download = (video_player m \<noteq> None)"
| "enabled (MainUI m) SharePlayer = (video_player m \<noteq> None)"
| "enabled (MainUI m) ShareCard =
     (case content m of GalleryPage g \<Rightarrow> active_view g = History | EditVideoPage v \<Rightarrow> False)"

section \<open>The running application\<close>

text \<open>
  A generation that has begun and not settled is a request in flight; it keeps what
  the handler's closure holds (\<open>originalVideo\<close> or \<open>promptText\<close>). \<open>persistent\<close> is
  the browser's storage that outlives a page load. The handlers outside \<open>App\<close> hand a
  URL to the browser (a share sheet, the clipboard, a download) and keep their feedback
  text in the state of their own component: they leave this world as it is.
\<close>

datatype request = SaveEditRequest video | GenerateRequest jsstring

record world =
  app :: app_state
  in_flight :: "request list"
  persistent :: "(jsstring \<times> jsstring) list"

definition load :: "video list \<Rightarrow> (jsstring \<times> jsstring) list \<Rightarrow> world" where
  "load MOCK_VIDEOS store = \<lparr>app = initial_state MOCK_VIDEOS, in_flight = [], persistent = store\<rparr>"

definition reload :: "video list \<Rightarrow> world \<Rightarrow> world" where
  "reload MOCK_VIDEOS w = load MOCK_VIDEOS (persistent w)"

fun dispatch :: "event \<Rightarrow> world \<Rightarrow> world" where
  "dispatch (PlayVideo v) w = w\<lparr>app := handlePlayVideo v (app w)\<rparr>"
| "dispatch ClosePlayer w = w\<lparr>app := handleClosePlayer (app w)\<rparr>"
| "dispatch VideoLoaded w = w\<lparr>app := handleVideoLoaded (app w)\<rparr>"
| "dispatch StartEdit w =
     (case playingVideo (app w) of
        Some v \<Rightarrow> w\<lparr>app := handleStartEdit v (app w)\<rparr>
      | None \<Rightarrow> w)"
| "dispatch CancelEdit w = w\<lparr>app := handleCancelEdit (app w)\<rparr>"
| "dispatch (SaveEdit v) w =
     w\<lparr>app := handleSaveEdit_begin (app w), in_flight := in_flight w @ [SaveEditRequest v]\<rparr>"
| "dispatch GenerateNewVideo w =
     (if trim (newVideoPrompt (app w)) = [] then w
      else w\<lparr>app := handleGenerateNewVideo_begin (app w),
             in_flight := in_flight w @ [GenerateRequest (trim (newVideoPrompt (app w)))]\<rparr>)"
| "dispatch (SetView v) w = w\<lparr>app := (app w)\<lparr>view := v\<rparr>\<rparr>"
| "dispatch (SetNewVideoPrompt t) w = w\<lparr>app := (app w)\<lparr>newVideoPrompt := t\<rparr>\<rparr>"
| "dispatch CloseError w = w\<lparr>app := (app w)\<lparr>generationError := None\<rparr>\<rparr>"
| "dispatch SelectKey w = w"
| "dispatch Download w = w"
| "dispatch SharePlayer w = w"
| "dispatch ShareCard w = w"

fun settle :: "jsstring \<Rightarrow> int \<Rightarrow> request \<Rightarrow> error + jsstring option list \<Rightarrow> app_state \<Rightarrow> app_state" where
  "settle uuid date (SaveEditRequest v) r s = fst (handleSaveEdit_settle uuid date v r s)"
| "settle uuid date (GenerateRequest p) r s = fst (handleGenerateNewVideo_settle uuid date p r s)"

inductive step :: "world \<Rightarrow> world \<Rightarrow> bool" where
  ui_event: "enabled (render (app w)) ev \<Longrightarrow> step w (dispatch ev w)"
| settled:
    "in_flight w = before @ req # after \<Longrightarrow>
     step w (w\<lparr>app := settle uuid date req r (app w), in_flight := before @ after\<rparr>)"

inductive reachable :: "world \<Rightarrow> bool" where
  loaded: "reachable (load MOCK_VIDEOS store)"
| stepped: "reachable w \<Longrightarrow> step w w' \<Longrightarrow> reachable w'"

section \<open>Describing a run of the workflow\<close>

text \<open>
  The statuses the remote job shows to the loop: \<open>status_after client n operation k\<close> is
  what the loop holds after \<open>k\<close> more polls, starting from \<open>operation\<close> with \<open>n\<close> polls
  made; \<open>poll_trace\<close> is the effects of those polls. A status is settled when it ends
  the loop: the job is done, or the poll was rejected.
\<close>

definition poll_effects :: "operation \<Rightarrow> effect list" where
  "poll_effects operation =
     [SetTimeout 10000, ConsoleLog [lit ''...Generating...''], GetVideosOperation operation]"

fun status_after :: "ai_client \<Rightarrow> nat \<Rightarrow> operation \<Rightarrow> nat \<Rightarrow> error + operation" where
  "status_after client n operation 0 = Inr operation"
| "status_after client n operation (Suc k) =
     (case getVideosOperation client n operation of
        Inl e \<Rightarrow> Inl e
      | Inr operation' \<Rightarrow> status_after client (Suc n) operation' k)"

fun poll_trace :: "ai_client \<Rightarrow> nat \<Rightarrow> operation \<Rightarrow> nat \<Rightarrow> effect list" where
  "poll_trace client n operation 0 = []"
| "poll_trace client n operation (Suc k) =
     poll_effects operation @
     (case getVideosOperation client n operation of
        Inl e \<Rightarrow> []
      | Inr operation' \<Rightarrow> poll_trace client (Suc n) operation' k)"

fun settled :: "error + operation \<Rightarrow> bool" where
  "settled (Inl e) = True"
| "settled (Inr operation) = op_done operation"

fun is_poll :: "effect \<Rightarrow> bool" where
  "is_poll (GetVideosOperation operation) = True"
| "is_poll e = False"

definition polls_made :: "effect list \<Rightarrow> nat" where
  "polls_made tr = length (filter is_poll tr)"

text \<open>
  What one fetched video gives: the base64 text of the blob behind \<open>url\<close>, when the
  response is \<open>ok\<close>, its body can be read and the reader loads it.
\<close>

definition fetched_base64 :: "env \<Rightarrow> jsstring \<Rightarrow> jsstring option option" where
  "fetched_base64 env url =
     (case fetch env url of
        Inl e \<Rightarrow> None
      | Inr res \<Rightarrow>
          if \<not> ok res then None
          else (case blob res of
                  Inl e \<Rightarrow> None
                | Inr b \<Rightarrow> map_option (\<lambda>d. index1 (split_comma d)) (readAsDataURL env b)))"

fun is_generate :: "effect \<Rightarrow> bool" where
  "is_generate (GenerateVideos params) = True"
| "is_generate e = False"

definition requests_made :: "effect list \<Rightarrow> nat" where
  "requests_made tr = length (filter is_generate tr)"

text \<open>
  Forwarding a key at the fetches of a trace whose fetch URLs are written without it.
  Two traces that arise from one such trace with two keys differ only in the key.
\<close>

fun with_key :: "jsstring option \<Rightarrow> effect \<Rightarrow> effect" where
  "with_key k (Fetch url) = Fetch (url @ lit ''&key='' @ template_str k)"
| "with_key k e = e"

definition key_related :: "jsstring option \<Rightarrow> jsstring option \<Rightarrow> effect list \<Rightarrow> effect list \<Rightarrow> bool" where
  "key_related k1 k2 tr1 tr2 \<longleftrightarrow>
     (\<exists>tr. tr1 = map (with_key k1) tr \<and> tr2 = map (with_key k2) tr)"


text \<open>What holds of the flags in every state the application can reach.\<close>

definition flags_consistent :: "world \<Rightarrow> bool" where
  "flags_consistent w \<longleftrightarrow>
     length (in_flight w) \<le> 1 \<and>
     (isSaving (app w) \<longleftrightarrow> in_flight w \<noteq> []) \<and>
     (isPlaying (app w) \<longleftrightarrow> playingVideo (app w) \<noteq> None) \<and>
     (editingVideo (app w) = None \<or> (\<not> isPlaying (app w) \<and> \<not> isSaving (app w)))"

section \<open>Example inputs\<close>

definition example_history :: "historyVideo list" where
  "example_history =
     [\<lparr>video_id = lit ''a'', videoUrl = lit ''data:video/mp4;base64,AAAA'',
       title = lit ''first'', description = lit ''a cat'', createdAt = 100\<rparr>,
      \<lparr>video_id = lit ''b'', videoUrl = lit ''data:video/mp4;base64,BBBB'',
       title = lit ''third'', description = lit ''a dog'', createdAt = 300\<rparr>,
      \<lparr>video_id = lit ''c'', videoUrl = lit ''data:video/mp4;base64,CCCC'',
       title = lit ''second'', description = lit ''a koala'', createdAt = 200\<rparr>]"

definition example_pending :: operation where
  "example_pending = \<lparr>op_done = False, response = None\<rparr>"

definition example_done :: operation where
  "example_done =
     \<lparr>op_done = True,
      response = Some \<lparr>generatedVideos =
        Some [\<lparr>video = Some \<lparr>uri = Some (lit ''https://example.com/v?alt=media'')\<rparr>\<rparr>]\<rparr>\<rparr>"

text \<open>A job that is done at the third poll.\<close>

definition example_client :: ai_client where
  "example_client =
     \<lparr>generateVideos = (\<lambda>params. Inr example_pending),
      getVideosOperation = (\<lambda>n operation. if n < 2 then Inr example_pending else Inr example_done)\<rparr>"

definition example_env :: env where
  "example_env =
     \<lparr>API_KEY = Some (lit ''secret''),
      GoogleGenAI = (\<lambda>apiKey. example_client),
      fetch = (\<lambda>url. Inr \<lparr>ok = True, status = 200, statusText = lit ''OK'',
                            blob = Inr \<lparr>mime = lit ''video/mp4'', bytes = [0, 1, 2]\<rparr>\<rparr>),
      decodeURIComponent = Some,
      readAsDataURL = (\<lambda>b. Some (lit ''data:'' @ mime b @ lit '';base64,AAEC'')),
      randomUUID = lit ''uuid-1'',
      now = 1700000000000\<rparr>"

text \<open>A job that never reports done.\<close>

definition never_done_client :: ai_client where
  "never_done_client =
     \<lparr>generateVideos = (\<lambda>params. Inr example_pending),
      getVideosOperation = (\<lambda>n operation. Inr example_pending)\<rparr>"

definition never_done_env :: env where
  "never_done_env = example_env\<lparr>GoogleGenAI := (\<lambda>apiKey. never_done_client)\<rparr>"

text \<open>A job whose creation is rejected.\<close>

definition rejecting_env :: env where
  "rejecting_env =
     example_env\<lparr>GoogleGenAI := (\<lambda>apiKey.
       \<lparr>generateVideos = (\<lambda>params. Inl (Rejection (lit ''API key not valid''))),
        getVideosOperation = (\<lambda>n operation. Inr example_pending)\<rparr>)\<rparr>"

definition example_video :: video where
  "example_video =
     \<lparr>video_id = lit ''1'', videoUrl = lit ''https://example.com/1.mp4'',
      title = lit ''Koala'', description = lit ''a koala on a motorcycle''\<rparr>"

section \<open>Example states\<close>

definition prompt_state :: app_state where
  "prompt_state = (initial_state [example_video])\<lparr>newVideoPrompt := lit '' a cat ''\<rparr>"

definition editing_state :: app_state where
  "editing_state = (initial_state [example_video])\<lparr>editingVideo := Some example_video\<rparr>"

definition typing_world :: world where
  "typing_world = dispatch (SetNewVideoPrompt (lit ''a cat'')) (load [example_video] [])"

definition generating_world :: world where
  "generating_world = dispatch GenerateNewVideo typing_world"

definition generated_world :: world where
  "generated_world =
     generating_world
       \<lparr>app := settle (lit ''uuid-1'') 1700000000000 (GenerateRequest (lit ''a cat''))
                 (Inr [Some (lit ''AAEC'')]) (app generating_world),
        in_flight := [] @ []\<rparr>"

section \<open>Helper lemmas\<close>

subsection \<open>Strings and sorting\<close>

lemma trim_blank:
  assumes "\<forall>c \<in> set s. is_whitespace c"
  shows "trim s = []"
proof -
  from assms have h: "dropWhile is_whitespace s = []"
    by (induction s) auto
  show ?thesis
    unfolding trim_def h by simp
qed

lemma mset_insert_by: "mset (insert_by cmp x ys) = add_mset x (mset ys)"
  by (induction ys) auto

lemma set_insert_by: "set (insert_by cmp x ys) = insert x (set ys)"
  by (induction ys) auto

lemma sorted_insert_by:
  "sorted_wrt (\<lambda>a b. createdAt b \<le> createdAt a) ys \<Longrightarrow>
   sorted_wrt (\<lambda>a b. createdAt b \<le> createdAt a)
     (insert_by (\<lambda>a b. createdAt b - createdAt a) x ys)"
  by (induction ys) (auto simp: set_insert_by)

lemma mset_array_sort: "mset (array_sort cmp xs) = mset xs"
  unfolding array_sort_def by (induction xs) (simp_all add: mset_insert_by)

lemma sorted_array_sort:
  "sorted_wrt (\<lambda>a b. createdAt b \<le> createdAt a)
     (array_sort (\<lambda>a b. createdAt b - createdAt a) xs)"
  unfolding array_sort_def by (induction xs) (simp_all add: sorted_insert_by)

subsection \<open>The polling loop\<close>

lemma polls_made_simps [simp]:
  "polls_made [] = 0"
  "polls_made (tr @ tr') = polls_made tr + polls_made tr'"
  "polls_made (poll_effects operation) = 1"
  by (simp_all add: polls_made_def poll_effects_def)

lemma poll_loop_first_settled:
  assumes "settled (status_after client n operation k)"
    and "\<forall>j<k. \<not> settled (status_after client n operation j)"
  shows "poll_loop client n tr operation =
           Some (tr @ poll_trace client n operation k, status_after client n operation k) \<and>
         polls_made (poll_trace client n operation k) = k"
  using assms
proof (induction k arbitrary: n tr operation)
  case 0
  then show ?case by (simp add: poll_loop.simps)
next
  case (Suc k)
  from Suc.prems(2) have nd: "\<not> op_done operation"
    by (metis settled.simps(2) status_after.simps(1) zero_less_Suc)
  show ?case
  proof (cases "getVideosOperation client n operation")
    case (Inl e)
    have "k = 0"
    proof (rule ccontr)
      assume "k \<noteq> 0"
      then have "Suc 0 < Suc k" by simp
      with Suc.prems(2) have "\<not> settled (status_after client n operation (Suc 0))" by blast
      with Inl show False by simp
    qed
    with Inl nd show ?thesis
      by (subst poll_loop.simps) (simp add: poll_effects_def polls_made_def)
  next
    case (Inr operation')
    from Suc.prems(1) Inr have s: "settled (status_after client (Suc n) operation' k)"
      by simp
    have ns: "\<forall>j<k. \<not> settled (status_after client (Suc n) operation' j)"
    proof (intro allI impI)
      fix j assume "j < k"
      then have "Suc j < Suc k" by simp
      with Suc.prems(2) have "\<not> settled (status_after client n operation (Suc j))" by blast
      with Inr show "\<not> settled (status_after client (Suc n) operation' j)" by simp
    qed
    from Suc.IH [OF s ns, of "tr @ poll_effects operation"] Inr nd show ?thesis
      by (subst poll_loop.simps) (simp add: poll_effects_def polls_made_def)
  qed
qed

lemma poll_loop_Some_settled:
  assumes "poll_loop client n tr operation = Some res"
  shows "\<exists>k. settled (status_after client n operation k)"
proof (rule poll_loop.raw_induct
    [where P = "\<lambda>client n tr operation res. \<exists>k. settled (status_after client n operation k)",
     OF _ assms])
  fix f client n tr operation res
  assume IH: "\<And>client n tr operation res. f client n tr operation = Some res \<Longrightarrow>
                \<exists>k. settled (status_after client n operation k)"
    and body: "(if \<not> op_done operation then
        (let tr' = tr @ [SetTimeout 10000, ConsoleLog [lit ''...Generating...''],
                         GetVideosOperation operation]
         in case getVideosOperation client n operation of
              Inl e \<Rightarrow> Some (tr', Inl e)
            | Inr operation' \<Rightarrow> f client (Suc n) tr' operation')
      else Some (tr, Inr operation)) = Some res"
  show "\<exists>k. settled (status_after client n operation k)"
  proof (cases "op_done operation")
    case True
    then have "settled (status_after client n operation 0)" by simp
    then show ?thesis ..
  next
    case False
    show ?thesis
    proof (cases "getVideosOperation client n operation")
      case (Inl e)
      then have "settled (status_after client n operation (Suc 0))" by simp
      then show ?thesis ..
    next
      case (Inr operation')
      with False body obtain tr' where "f client (Suc n) tr' operation' = Some res"
        by (auto simp: Let_def)
      from IH [OF this] obtain k where "settled (status_after client (Suc n) operation' k)" ..
      with Inr have "settled (status_after client n operation (Suc k))" by simp
      then show ?thesis ..
    qed
  qed
qed

lemma first_settled:
  assumes "settled (status_after client n operation k)"
  shows "\<exists>k'\<le>k. settled (status_after client n operation k') \<and>
           (\<forall>j<k'. \<not> settled (status_after client n operation j))"
proof -
  let ?P = "\<lambda>k. settled (status_after client n operation k)"
  from assms have "?P (LEAST k. ?P k)" by (rule LeastI)
  moreover have "(LEAST k. ?P k) \<le> k" using assms by (rule Least_le)
  moreover have "\<forall>j<(LEAST k. ?P k). \<not> ?P j" using not_less_Least by blast
  ultimately show ?thesis by blast
qed

lemma never_done_not_settled: "\<not> settled (status_after never_done_client n example_pending k)"
  by (induction k arbitrary: n) (simp_all add: never_done_client_def example_pending_def)

lemma never_done_poll_loop: "poll_loop never_done_client n tr example_pending = None"
proof (cases "poll_loop never_done_client n tr example_pending")
  case None then show ?thesis .
next
  case (Some res)
  from poll_loop_Some_settled [OF this] never_done_not_settled show ?thesis by blast
qed

lemma never_done_generateVideos: "generateVideos never_done_client params = Inr example_pending"
  by (simp add: never_done_client_def)

lemma ai_never_done_env: "ai never_done_env = never_done_client"
  by (simp add: ai_def never_done_env_def)

subsection \<open>Fetching the videos\<close>

lemma promise_all_Resolved: "promise_all ps = Resolved xs \<Longrightarrow> ps = map Resolved xs"
proof (induction ps arbitrary: xs)
  case Nil
  then show ?case by simp
next
  case (Cons p ps)
  then show ?case
    by (cases p) (auto split: promise.splits)
qed

lemma fetch_video_Resolved:
  assumes "snd (fetch_video env gv) = Resolved src"
  shows "\<exists>url. fst (fetch_video env gv) = [Fetch url] \<and> fetched_base64 env url = Some src"
  using assms
  by (auto simp: fetch_video_def fetched_base64_def bloblToBase64_def
      split: option.splits sum.splits if_splits)

lemma fetch_videos_Resolved:
  "map (\<lambda>v. snd (fetch_video env v)) vs = map Resolved srcs \<Longrightarrow>
   \<exists>urls. concat (map (\<lambda>v. fst (fetch_video env v)) vs) = map Fetch urls \<and>
          map (fetched_base64 env) urls = map Some srcs"
proof (induction vs arbitrary: srcs)
  case Nil
  then show ?case by simp
next
  case (Cons v vs)
  from Cons.prems obtain src rest where srcs: "srcs = src # rest"
    and hd: "snd (fetch_video env v) = Resolved src"
    and tl: "map (\<lambda>v. snd (fetch_video env v)) vs = map Resolved rest"
    by (cases srcs) (auto simp: comp_def)
  from fetch_video_Resolved [OF hd] obtain url where
    u: "fst (fetch_video env v) = [Fetch url]" "fetched_base64 env url = Some src"
    by blast
  from Cons.IH [OF tl] obtain urls where
    us: "concat (map (\<lambda>v. fst (fetch_video env v)) vs) = map Fetch urls"
        "map (fetched_base64 env) urls = map Some rest"
    by blast
  have "concat (map (\<lambda>v. fst (fetch_video env v)) (v # vs)) = map Fetch (url # urls)"
    using u us by simp
  moreover have "map (fetched_base64 env) (url # urls) = map Some srcs"
    using u us srcs by simp
  ultimately show ?case by blast
qed

lemma requests_made_simps [simp]:
  "requests_made [] = 0"
  "requests_made (tr @ tr') = requests_made tr + requests_made tr'"
  "requests_made (GenerateVideos params # tr) = Suc (requests_made tr)"
  "requests_made (poll_effects operation) = 0"
  by (simp_all add: requests_made_def poll_effects_def)

lemma requests_made_poll_trace [simp]: "requests_made (poll_trace client n operation k) = 0"
  by (induction k arbitrary: n operation) (simp_all split: sum.splits)

lemma requests_made_fetch_video [simp]: "requests_made (fst (fetch_video env gv)) = 0"
  by (simp add: fetch_video_def requests_made_def split: option.splits)

lemma requests_made_fetch_videos [simp]:
  "requests_made (concat (map (\<lambda>v. fst (fetch_video env v)) vs)) = 0"
  by (induction vs) simp_all

lemma poll_loop_Some:
  assumes "poll_loop client n tr operation = Some (tr', r)"
  shows "\<exists>k. settled (status_after client n operation k) \<and>
           (\<forall>j<k. \<not> settled (status_after client n operation j)) \<and>
           tr' = tr @ poll_trace client n operation k \<and>
           r = status_after client n operation k \<and>
           polls_made (poll_trace client n operation k) = k"
proof -
  from poll_loop_Some_settled [OF assms] obtain k0
    where "settled (status_after client n operation k0)" ..
  from first_settled [OF this] obtain k where
    k: "settled (status_after client n operation k)"
       "\<forall>j<k. \<not> settled (status_after client n operation j)"
    by blast
  from poll_loop_first_settled [OF k, of tr] assms k show ?thesis
    by auto
qed

lemma fetch_all_Some:
  assumes "fetch_all env tr operation = Some (tr', r)"
  shows "requests_made tr' = requests_made tr"
    and "r \<noteq> Inr []"
    and "r = Inr srcs \<Longrightarrow>
           \<exists>resp vs urls. response operation = Some resp \<and> generatedVideos resp = Some vs \<and>
             length vs = length srcs \<and> tr' = tr @ map Fetch urls \<and>
             map (fetched_base64 env) urls = map Some srcs"
proof -
  show "requests_made tr' = requests_made tr"
    using assms
    by (auto simp: fetch_all_def Let_def comp_def split: option.splits if_splits)
  show "r \<noteq> Inr []"
  proof
    assume r: "r = Inr []"
    with assms obtain resp vs where vs: "response operation = Some resp"
      "generatedVideos resp = Some vs" "vs \<noteq> []"
      "await (promise_all (map (\<lambda>v. snd (fetch_video env v)) vs)) = Some (Inr [])"
      by (auto simp: fetch_all_def Let_def comp_def split: option.splits if_splits)
    then have "promise_all (map (\<lambda>v. snd (fetch_video env v)) vs) = Resolved []"
      by (auto simp: await_def split: promise.splits)
    from promise_all_Resolved [OF this] vs(3) show False by simp
  qed
  show "\<exists>resp vs urls. response operation = Some resp \<and> generatedVideos resp = Some vs \<and>
             length vs = length srcs \<and> tr' = tr @ map Fetch urls \<and>
             map (fetched_base64 env) urls = map Some srcs" if r: "r = Inr srcs"
  proof -
    from r assms obtain resp vs where vs: "response operation = Some resp"
      "generatedVideos resp = Some vs"
      "await (promise_all (map (\<lambda>v. snd (fetch_video env v)) vs)) = Some (Inr srcs)"
      "tr' = tr @ concat (map (\<lambda>v. fst (fetch_video env v)) vs)"
      by (auto simp: fetch_all_def Let_def comp_def split: option.splits if_splits)
    then have "promise_all (map (\<lambda>v. snd (fetch_video env v)) vs) = Resolved srcs"
      by (auto simp: await_def split: promise.splits)
    from promise_all_Resolved [OF this]
    have m: "map (\<lambda>v. snd (fetch_video env v)) vs = map Resolved srcs" .
    then have "length vs = length srcs"
      by (metis length_map)
    with fetch_videos_Resolved [OF m] vs show ?thesis
      by auto
  qed
qed

subsection \<open>Outcomes of the workflow and of the handlers\<close>

lemma generateVideoFromText_requests:
  assumes "generateVideoFromText env p k = Some (tr, r)"
  shows "requests_made tr = 1" and "r \<noteq> Inr []"
proof -
  show "requests_made tr = 1"
  proof (cases "generateVideos (ai env) (video_params p k)")
    case (Inl e)
    with assms show ?thesis by (auto simp: generateVideoFromText_def)
  next
    case (Inr operation)
    with assms obtain tr1 r1 where
      pl: "poll_loop (ai env) 0 [GenerateVideos (video_params p k)] operation = Some (tr1, r1)"
      by (auto simp: generateVideoFromText_def split: option.splits)
    from poll_loop_Some [OF pl] have t1: "requests_made tr1 = 1"
      by auto
    show ?thesis
    proof (cases r1)
      case (Inl e)
      with assms Inr pl t1 show ?thesis by (auto simp: generateVideoFromText_def)
    next
      case r1: (Inr final)
      with assms Inr pl have "fetch_all env tr1 final = Some (tr, r)"
        by (auto simp: generateVideoFromText_def)
      from fetch_all_Some(1) [OF this] t1 show ?thesis by simp
    qed
  qed
  show "r \<noteq> Inr []"
  proof (cases "generateVideos (ai env) (video_params p k)")
    case (Inl e)
    with assms show ?thesis by (auto simp: generateVideoFromText_def)
  next
    case (Inr operation)
    with assms obtain tr1 r1 where
      pl: "poll_loop (ai env) 0 [GenerateVideos (video_params p k)] operation = Some (tr1, r1)"
      by (auto simp: generateVideoFromText_def split: option.splits)
    show ?thesis
    proof (cases r1)
      case (Inl e)
      with assms Inr pl show ?thesis by (auto simp: generateVideoFromText_def)
    next
      case r1: (Inr final)
      with assms Inr pl have "fetch_all env tr1 final = Some (tr, r)"
        by (auto simp: generateVideoFromText_def)
      from fetch_all_Some(2) [OF this] show ?thesis .
    qed
  qed
qed


lemma handleSaveEdit_failure:
  assumes "generateVideoFromText env (description v) 1 = Some (tr, Inl e)"
  shows "handleSaveEdit env v s =
           Some (s\<lparr>editingVideo := None, savingMessage := lit ''Creating your remix...'',
                   generationError := Some generation_failed_message, isSaving := False\<rparr>,
                 ConsoleLog [lit ''Generating video...'', description v] # tr @
                 [ConsoleError (lit ''Video generation failed:'') e])"
  using assms
  by (simp add: handleSaveEdit_def handleSaveEdit_settle_def handleSaveEdit_begin_def
      catch_finally_def)

lemma handleGenerateNewVideo_failure:
  assumes "generateVideoFromText env (trim (newVideoPrompt s)) 1 = Some (tr, Inl e)"
    and "trim (newVideoPrompt s) \<noteq> []"
  shows "handleGenerateNewVideo env s =
           Some (s\<lparr>savingMessage := lit ''Generating your video...'',
                   generationError := Some generation_failed_message, isSaving := False\<rparr>,
                 ConsoleLog [lit ''Generating video from new prompt...'', trim (newVideoPrompt s)]
                 # tr @ [ConsoleError (lit ''Video generation failed:'') e])"
  using assms
  by (simp add: handleGenerateNewVideo_def handleGenerateNewVideo_settle_def
      handleGenerateNewVideo_begin_def catch_finally_def)








subsection \<open>Where the workflow raises\<close>

lemma job_creation_error:
  assumes "generateVideos (ai env) (video_params p k) = Inl e"
  shows "generateVideoFromText env p k = Some ([GenerateVideos (video_params p k)], Inl e)"
  using assms by (simp add: generateVideoFromText_def)

lemma polling_error:
  assumes "generateVideos (ai env) (video_params p k) = Inr operation"
    and "\<not> op_done operation"
    and "getVideosOperation (ai env) 0 operation = Inl e"
  shows "generateVideoFromText env p k =
           Some (GenerateVideos (video_params p k) # poll_effects operation, Inl e)"
  using assms
  by (simp add: generateVideoFromText_def poll_effects_def) (subst poll_loop.simps, simp)

lemma empty_result_error:
  assumes "response operation = None \<or> response operation = Some \<lparr>generatedVideos = None\<rparr> \<or>
           response operation = Some \<lparr>generatedVideos = Some []\<rparr>"
  shows "fetch_all env tr operation = Some (tr, Inl (Error (lit ''No videos generated'')))"
  using assms by (auto simp: fetch_all_def)

lemma failed_fetch_error:
  assumes "video gv = Some v" and "decodeURIComponent env (template_str (uri v)) = Some url"
    and "fetch env (key_url env url) = Inr res" and "\<not> ok res"
    and "response operation = Some \<lparr>generatedVideos = Some [gv]\<rparr>"
  shows "fetch_all env tr operation =
           Some (tr @ [Fetch (key_url env url)],
                 Inl (Error (lit ''Failed to fetch video: '' @ number_str (status res)
                             @ lit '' '' @ statusText res)))"
  using assms by (simp add: fetch_all_def fetch_video_def await_def)

subsection \<open>Runs on the example inputs\<close>






lemma rejecting_run:
  "generateVideoFromText rejecting_env p 1 =
     Some ([GenerateVideos (video_params p 1)], Inl (Rejection (lit ''API key not valid'')))"
  by (simp add: generateVideoFromText_def ai_def rejecting_env_def)

lemma trim_example: "trim (lit '' a cat '') = lit ''a cat''"
  by (simp add: trim_def lit_def is_whitespace_def)

subsection \<open>Runs under two keys\<close>

lemma key_related_Nil [simp]: "key_related k1 k2 [] []"
  by (simp add: key_related_def)




lemma poll_effects_no_fetch: "\<forall>e \<in> set (poll_effects operation). \<forall>url. e \<noteq> Fetch url"
  by (simp add: poll_effects_def)












subsection \<open>Reachable states\<close>

lemma flags_consistent_load: "flags_consistent (load MOCK_VIDEOS store)"
  by (simp add: flags_consistent_def load_def initial_state_def)

lemma settle_resets_isSaving: "\<not> isSaving (settle uuid date req r s)"
  by (cases req)
     (auto simp: handleSaveEdit_settle_def handleGenerateNewVideo_settle_def catch_finally_def
        Let_def split: sum.splits list.splits)

lemma settle_flags:
  "editingVideo (settle uuid date req r s) = editingVideo s"
  "isPlaying s = (playingVideo s \<noteq> None) \<Longrightarrow>
     isPlaying (settle uuid date req r s) = (playingVideo (settle uuid date req r s) \<noteq> None)"
  by (cases req;
      auto simp: handleSaveEdit_settle_def handleGenerateNewVideo_settle_def catch_finally_def
        Let_def split: sum.splits list.splits)+

lemma saving_disables_everything: "isSaving s \<Longrightarrow> \<not> enabled (render s) ev"
  by (simp add: render_def)

lemma flags_consistent_dispatch:
  assumes "flags_consistent w" and "enabled (render (app w)) ev"
  shows "flags_consistent (dispatch ev w)"
proof -
  from assms(2) have ns: "\<not> isSaving (app w)"
    using saving_disables_everything by blast
  with assms(1) have nf: "in_flight w = []"
    by (simp add: flags_consistent_def)
  show ?thesis
  proof (cases ev)
    case (PlayVideo v)
    with assms ns show ?thesis
      by (auto simp: flags_consistent_def handlePlayVideo_def render_def split: option.splits)
  next
    case ClosePlayer
    with assms ns show ?thesis
      by (auto simp: flags_consistent_def handleClosePlayer_def)
  next
    case VideoLoaded
    with assms ns show ?thesis
      by (auto simp: flags_consistent_def handleVideoLoaded_def)
  next
    case StartEdit
    with assms ns show ?thesis
      by (auto simp: flags_consistent_def handleStartEdit_def render_def split: option.splits)
  next
    case CancelEdit
    with assms ns show ?thesis
      by (auto simp: flags_consistent_def handleCancelEdit_def)
  next
    case (SaveEdit v)
    with assms ns nf show ?thesis
      by (auto simp: flags_consistent_def handleSaveEdit_begin_def)
  next
    case GenerateNewVideo
    with assms ns nf show ?thesis
      by (auto simp: flags_consistent_def handleGenerateNewVideo_begin_def render_def
          split: option.splits)
  next
    case (SetView v)
    with assms ns show ?thesis
      by (auto simp: flags_consistent_def)
  next
    case (SetNewVideoPrompt t)
    with assms ns show ?thesis
      by (auto simp: flags_consistent_def)
  next
    case CloseError
    with assms ns show ?thesis
      by (auto simp: flags_consistent_def)
  next
    case SelectKey
    with assms show ?thesis by simp
  next
    case Download
    with assms show ?thesis by simp
  next
    case SharePlayer
    with assms show ?thesis by simp
  next
    case ShareCard
    with assms show ?thesis by simp
  qed
qed

lemma flags_consistent_settled:
  assumes "flags_consistent w" and "in_flight w = before @ req # after"
  shows "flags_consistent (w\<lparr>app := settle uuid date req r (app w), in_flight := before @ after\<rparr>)"
proof -
  from assms have e: "before = []" "after = []"
    by (auto simp: flags_consistent_def)
  from assms have s: "isSaving (app w)"
    by (auto simp: flags_consistent_def)
  with assms(1) have ed: "editingVideo (app w) = None"
    by (auto simp: flags_consistent_def)
  from assms(1) have pl: "isPlaying (app w) = (playingVideo (app w) \<noteq> None)"
    by (auto simp: flags_consistent_def)
  from e ed settle_flags(1) [of uuid date req r "app w"] settle_flags(2) [OF pl, of uuid date req r]
    settle_resets_isSaving [of uuid date req r "app w"]
  show ?thesis
    by (simp add: flags_consistent_def)
qed

lemma flags_consistent_step: "step w w' \<Longrightarrow> flags_consistent w \<Longrightarrow> flags_consistent w'"
  by (induction rule: step.induct)
     (simp_all add: flags_consistent_dispatch flags_consistent_settled)

lemma reachable_flags_consistent: "reachable w \<Longrightarrow> flags_consistent w"
  by (induction rule: reachable.induct)
     (simp_all add: flags_consistent_load flags_consistent_step)

lemma step_persistent: "step w w' \<Longrightarrow> persistent w' = persistent w"
proof (induction rule: step.induct)
  case (ui_event w ev)
  show ?case by (cases ev) (simp_all split: option.splits)
next
  case (settled w before req after uuid date r)
  show ?case by simp
qed

lemma reachable_typing_world: "reachable typing_world"
  unfolding typing_world_def
  by (rule reachable.stepped [OF reachable.loaded step.ui_event])
     (simp add: render_def load_def initial_state_def)

lemma typing_world_app:
  "app typing_world = (initial_state [example_video])\<lparr>newVideoPrompt := lit ''a cat''\<rparr>"
  "in_flight typing_world = []"
  by (simp_all add: typing_world_def load_def)

lemma trim_a_cat: "trim (lit ''a cat'') = lit ''a cat''"
  by (simp add: trim_def lit_def is_whitespace_def)

lemma reachable_generating_world: "reachable generating_world"
  unfolding generating_world_def
  by (rule reachable.stepped [OF reachable_typing_world step.ui_event])
     (simp add: render_def typing_world_app initial_state_def trim_a_cat, simp add: lit_def)

lemma generating_world_app:
  "app generating_world =
     (initial_state [example_video])\<lparr>newVideoPrompt := lit ''a cat'',
        savingMessage := lit ''Generating your video...'', isSaving := True,
        generationError := None\<rparr>"
  "in_flight generating_world = [GenerateRequest (lit ''a cat'')]"
  by (simp_all add: generating_world_def typing_world_app trim_a_cat
      handleGenerateNewVideo_begin_def, simp_all add: lit_def)

lemma step_generated_world: "step generating_world generated_world"
proof -
  have "in_flight generating_world = [] @ GenerateRequest (lit ''a cat'') # []"
    by (simp add: generating_world_app)
  from step.settled [OF this, of "lit ''uuid-1''" 1700000000000 "Inr [Some (lit ''AAEC'')]"]
  show ?thesis by (simp add: generated_world_def)
qed

section \<open>The claims\<close>



text \<open>
  C2 (amended). The polling loop of \<open>generateVideoFromText\<close> has no bound of its own: it
  returns exactly when the remote job shows a settled status (the job is done, or a poll
  is rejected). When the first settled status comes after \<open>k\<close> polls, the loop makes
  exactly \<open>k\<close> polls, none of them repeated (a rejected poll ends the loop with its
  error), and returns that status.
\<close>

theorem poll_loop_ends_when_remote_settles:
  "((\<exists>res. poll_loop client n tr operation = Some res) \<longleftrightarrow>
      (\<exists>k. settled (status_after client n operation k))) \<and>
   (\<forall>k. settled (status_after client n operation k) \<longrightarrow>
        (\<forall>j<k. \<not> settled (status_after client n operation j)) \<longrightarrow>
        poll_loop client n tr operation =
          Some (tr @ poll_trace client n operation k, status_after client n operation k) \<and>
        polls_made (poll_trace client n operation k) = k)"
proof (intro conjI iffI allI impI)
  assume "\<exists>res. poll_loop client n tr operation = Some res"
  then show "\<exists>k. settled (status_after client n operation k)"
    using poll_loop_Some_settled by blast
next
  assume "\<exists>k. settled (status_after client n operation k)"
  then obtain k where "settled (status_after client n operation k)" ..
  from first_settled [OF this] obtain k' where
    "settled (status_after client n operation k')"
    "\<forall>j<k'. \<not> settled (status_after client n operation j)"
    by blast
  from poll_loop_first_settled [OF this] show "\<exists>res. poll_loop client n tr operation = Some res"
    by blast
next
  fix k
  assume "settled (status_after client n operation k)"
    and "\<forall>j<k. \<not> settled (status_after client n operation j)"
  from poll_loop_first_settled [OF this]
  show "poll_loop client n tr operation =
          Some (tr @ poll_trace client n operation k, status_after client n operation k)"
    and "polls_made (poll_trace client n operation k) = k"
    by blast+
qed

theorem poll_loop_ends_when_remote_settles_witness:
  "poll_loop example_client 0 [] example_pending =
     Some (poll_effects example_pending @ poll_effects example_pending @
           poll_effects example_pending, Inr example_done) \<and>
   polls_made (poll_trace example_client 0 example_pending 3) = 3"
proof -
  have s: "settled (status_after example_client 0 example_pending 3)"
    by (simp add: numeral_3_eq_3 example_client_def example_done_def)
  have ns: "\<forall>j<3. \<not> settled (status_after example_client 0 example_pending j)"
    by (simp add: numeral_3_eq_3 less_Suc_eq example_client_def example_pending_def)
  from poll_loop_ends_when_remote_settles [of example_client 0 "[]" example_pending] s ns
  have "poll_loop example_client 0 [] example_pending =
          Some ([] @ poll_trace example_client 0 example_pending 3,
                status_after example_client 0 example_pending 3) \<and>
        polls_made (poll_trace example_client 0 example_pending 3) = 3"
    by blast
  then show ?thesis
    by (simp add: numeral_3_eq_3 example_client_def)
qed

text \<open>A job that never reports done: the loop, and so the workflow, never returns.\<close>

theorem polling_unbounded_counterexample:
  "poll_loop never_done_client 0 [] example_pending = None \<and>
   generateVideoFromText never_done_env (lit ''a cat'') 1 = None"
  by (simp add: never_done_poll_loop generateVideoFromText_def ai_never_done_env
      never_done_generateVideos)

text \<open>
  C3. Whatever error the workflow raises (a rejected job creation, a rejected poll, an
  empty result, a failed fetch of a video), \<open>handleSaveEdit\<close> and
  \<open>handleGenerateNewVideo\<close> handle it alike: they log it and set the one fixed error
  message. There is no retry (the run made exactly one \<open>generateVideos\<close> call) and no
  other recovery (nothing follows the workflow's own effects but the log of the error).
\<close>

theorem generation_errors_handled_alike:
  assumes "generateVideoFromText env p 1 = Some (tr, Inl e)"
  shows "requests_made tr = 1 \<and>
         (\<forall>v s. description v = p \<longrightarrow>
            (\<exists>s'. handleSaveEdit env v s =
                     Some (s', ConsoleLog [lit ''Generating video...'', p] # tr @
                               [ConsoleError (lit ''Video generation failed:'') e]) \<and>
                   generationError s' =
                     Some [lit ''Video generation failed.'',
                           lit ''This may be due to an invalid API key or network issues.''])) \<and>
         (\<forall>s. trim (newVideoPrompt s) = p \<and> p \<noteq> [] \<longrightarrow>
            (\<exists>s'. handleGenerateNewVideo env s =
                     Some (s', ConsoleLog [lit ''Generating video from new prompt...'', p] # tr @
                               [ConsoleError (lit ''Video generation failed:'') e]) \<and>
                   generationError s' =
                     Some [lit ''Video generation failed.'',
                           lit ''This may be due to an invalid API key or network issues.'']))"
proof (intro conjI allI impI)
  from generateVideoFromText_requests(1) [OF assms] show "requests_made tr = 1" .
next
  fix v :: video and s :: app_state
  assume "description v = p"
  with assms have "generateVideoFromText env (description v) 1 = Some (tr, Inl e)" by simp
  from handleSaveEdit_failure [OF this, of s] \<open>description v = p\<close>
  show "\<exists>s'. handleSaveEdit env v s =
                     Some (s', ConsoleLog [lit ''Generating video...'', p] # tr @
                               [ConsoleError (lit ''Video generation failed:'') e]) \<and>
                   generationError s' =
                     Some [lit ''Video generation failed.'',
                           lit ''This may be due to an invalid API key or network issues.'']"
    by (simp add: generation_failed_message_def)
next
  fix s :: app_state
  assume a: "trim (newVideoPrompt s) = p \<and> p \<noteq> []"
  with assms have g: "generateVideoFromText env (trim (newVideoPrompt s)) 1 = Some (tr, Inl e)"
    and ne: "trim (newVideoPrompt s) \<noteq> []"
    by simp_all
  from handleGenerateNewVideo_failure [OF g ne] a
  show "\<exists>s'. handleGenerateNewVideo env s =
                     Some (s', ConsoleLog [lit ''Generating video from new prompt...'', p] # tr @
                               [ConsoleError (lit ''Video generation failed:'') e]) \<and>
                   generationError s' =
                     Some [lit ''Video generation failed.'',
                           lit ''This may be due to an invalid API key or network issues.'']"
    by (simp add: generation_failed_message_def)
qed

theorem generation_errors_handled_alike_witness:
  "requests_made [GenerateVideos (video_params (lit ''a cat'') 1)] = 1 \<and>
   (\<exists>s'. handleGenerateNewVideo rejecting_env prompt_state =
            Some (s', ConsoleLog [lit ''Generating video from new prompt...'', lit ''a cat''] #
                      [GenerateVideos (video_params (lit ''a cat'') 1)] @
                      [ConsoleError (lit ''Video generation failed:'')
                         (Rejection (lit ''API key not valid''))]) \<and>
          generationError s' =
            Some [lit ''Video generation failed.'',
                  lit ''This may be due to an invalid API key or network issues.''])"
proof -
  have p: "trim (newVideoPrompt prompt_state) = lit ''a cat'' \<and> lit ''a cat'' \<noteq> []"
    by (simp add: prompt_state_def trim_example) (simp add: lit_def)
  from generation_errors_handled_alike [OF rejecting_run [of "lit ''a cat''"]] p
  show ?thesis by blast
qed

text \<open>
  C4. At most one generation request is ever in flight. In every state the application
  can reach, \<open>isSaving\<close> holds exactly while a request is in flight; while it holds,
  \<open>App\<close> renders the saving screen in place of the main UI, so no handler can run and
  no generation can begin; the generate button, where it is rendered, is disabled when
  the prompt is blank or \<open>isSaving\<close> holds; and when a request settles, with a result or
  with an error, \<open>isSaving\<close> is false again.
\<close>

theorem one_generation_in_flight:
  assumes "reachable w"
  shows "length (in_flight w) \<le> 1 \<and>
         (isSaving (app w) \<longleftrightarrow> in_flight w \<noteq> []) \<and>
         (isSaving (app w) \<longrightarrow>
            render (app w) = SavingProgressPage (savingMessage (app w)) \<and>
            (\<forall>ev. \<not> enabled (render (app w)) ev)) \<and>
         (\<forall>m g. render (app w) = MainUI m \<and> content m = GalleryPage g \<longrightarrow>
            generate_disabled g = (trim (newVideoPrompt (app w)) = [] \<or> isSaving (app w))) \<and>
         (\<forall>uuid date req r. \<not> isSaving (settle uuid date req r (app w)))"
proof -
  from reachable_flags_consistent [OF assms]
  have "length (in_flight w) \<le> 1" and "isSaving (app w) \<longleftrightarrow> in_flight w \<noteq> []"
    by (simp_all add: flags_consistent_def)
  moreover have "isSaving (app w) \<longrightarrow>
            render (app w) = SavingProgressPage (savingMessage (app w)) \<and>
            (\<forall>ev. \<not> enabled (render (app w)) ev)"
    by (simp add: render_def)
  moreover have "\<forall>m g. render (app w) = MainUI m \<and> content m = GalleryPage g \<longrightarrow>
            generate_disabled g = (trim (newVideoPrompt (app w)) = [] \<or> isSaving (app w))"
    by (auto simp: render_def split: if_splits option.splits)
  moreover have "\<forall>uuid date req r. \<not> isSaving (settle uuid date req r (app w))"
    by (simp add: settle_resets_isSaving)
  ultimately show ?thesis by blast
qed

theorem one_generation_in_flight_witness:
  "length (in_flight generating_world) \<le> 1 \<and>
   isSaving (app generating_world) \<and>
   in_flight generating_world = [GenerateRequest (lit ''a cat'')] \<and>
   render (app generating_world) = SavingProgressPage (lit ''Generating your video...'') \<and>
   (\<forall>ev. \<not> enabled (render (app generating_world)) ev) \<and>
   (\<forall>uuid date req r. \<not> isSaving (settle uuid date req r (app generating_world)))"
proof -
  have s: "isSaving (app generating_world)"
    "savingMessage (app generating_world) = lit ''Generating your video...''"
    by (simp_all add: generating_world_app)
  from one_generation_in_flight [OF reachable_generating_world] s generating_world_app(2)
  show ?thesis by simp
qed

text \<open>
  C5 (amended). When \<open>generateVideoFromText\<close> throws, both handlers leave the video
  list, the history list, the view, the prompt text, the player state and the loading id
  as they were. They set the error message and reset \<open>isSaving\<close>; what each handler wrote
  before the request also stays: the saving message, and for \<open>handleSaveEdit\<close> the
  cleared \<open>editingVideo\<close>.
\<close>

theorem failure_changes_only_status_fields:
  assumes "generateVideoFromText env p 1 = Some (tr, Inl e)"
  shows "(\<forall>v s. description v = p \<longrightarrow>
            map_option fst (handleSaveEdit env v s) =
              Some (s\<lparr>editingVideo := None, savingMessage := lit ''Creating your remix...'',
                      generationError := Some generation_failed_message,
                      isSaving := False\<rparr>)) \<and>
         (\<forall>s. trim (newVideoPrompt s) = p \<and> p \<noteq> [] \<longrightarrow>
            map_option fst (handleGenerateNewVideo env s) =
              Some (s\<lparr>savingMessage := lit ''Generating your video...'',
                      generationError := Some generation_failed_message,
                      isSaving := False\<rparr>))"
proof (intro conjI allI impI)
  fix v :: video and s :: app_state
  assume "description v = p"
  with assms have "generateVideoFromText env (description v) 1 = Some (tr, Inl e)" by simp
  from handleSaveEdit_failure [OF this, of s]
  show "map_option fst (handleSaveEdit env v s) =
              Some (s\<lparr>editingVideo := None, savingMessage := lit ''Creating your remix...'',
                      generationError := Some generation_failed_message,
                      isSaving := False\<rparr>)"
    by simp
next
  fix s :: app_state
  assume a: "trim (newVideoPrompt s) = p \<and> p \<noteq> []"
  with assms have g: "generateVideoFromText env (trim (newVideoPrompt s)) 1 = Some (tr, Inl e)"
    and ne: "trim (newVideoPrompt s) \<noteq> []"
    by simp_all
  from handleGenerateNewVideo_failure [OF g ne]
  show "map_option fst (handleGenerateNewVideo env s) =
              Some (s\<lparr>savingMessage := lit ''Generating your video...'',
                      generationError := Some generation_failed_message,
                      isSaving := False\<rparr>)"
    by simp
qed

theorem failure_changes_only_status_fields_witness:
  "map_option fst (handleSaveEdit rejecting_env example_video editing_state) =
     Some (editing_state\<lparr>editingVideo := None, savingMessage := lit ''Creating your remix...'',
             generationError := Some generation_failed_message, isSaving := False\<rparr>) \<and>
   map_option fst (handleGenerateNewVideo rejecting_env prompt_state) =
     Some (prompt_state\<lparr>savingMessage := lit ''Generating your video...'',
             generationError := Some generation_failed_message, isSaving := False\<rparr>)"
proof -
  have p: "trim (newVideoPrompt prompt_state) = lit ''a cat'' \<and> lit ''a cat'' \<noteq> []"
    by (simp add: prompt_state_def trim_example) (simp add: lit_def)
  have d: "description example_video = lit ''a koala on a motorcycle''"
    by (simp add: example_video_def)
  from failure_changes_only_status_fields [OF rejecting_run [of "lit ''a koala on a motorcycle''"]] d
  have 1: "map_option fst (handleSaveEdit rejecting_env example_video editing_state) =
     Some (editing_state\<lparr>editingVideo := None, savingMessage := lit ''Creating your remix...'',
             generationError := Some generation_failed_message, isSaving := False\<rparr>)"
    by blast
  from failure_changes_only_status_fields [OF rejecting_run [of "lit ''a cat''"]] p
  have 2: "map_option fst (handleGenerateNewVideo rejecting_env prompt_state) =
     Some (prompt_state\<lparr>savingMessage := lit ''Generating your video...'',
             generationError := Some generation_failed_message, isSaving := False\<rparr>)"
    by blast
  from 1 2 show ?thesis ..
qed

text \<open>
  A failed \<open>handleSaveEdit\<close> from the edit page: \<open>editingVideo\<close> was set before and is
  cleared after, so the state differs from the old one in more than the error message
  and \<open>isSaving\<close>.
\<close>

theorem failure_only_error_counterexample:
  "map_option fst (handleSaveEdit rejecting_env example_video editing_state) \<noteq>
     Some (editing_state\<lparr>generationError := Some generation_failed_message, isSaving := False\<rparr>) \<and>
   map_option (editingVideo \<circ> fst) (handleSaveEdit rejecting_env example_video editing_state) =
     Some None \<and>
   editingVideo editing_state = Some example_video"
proof -
  have "editingVideo (editing_state\<lparr>editingVideo := None, savingMessage := lit ''Creating your remix...'',
             generationError := Some generation_failed_message, isSaving := False\<rparr>) \<noteq>
        editingVideo (editing_state\<lparr>generationError := Some generation_failed_message, isSaving := False\<rparr>)"
    by (simp add: editing_state_def)
  then have ne: "editing_state\<lparr>editingVideo := None, savingMessage := lit ''Creating your remix...'',
             generationError := Some generation_failed_message, isSaving := False\<rparr> \<noteq>
        editing_state\<lparr>generationError := Some generation_failed_message, isSaving := False\<rparr>"
    by metis
  have r: "handleSaveEdit rejecting_env example_video editing_state =
     Some (editing_state\<lparr>editingVideo := None, savingMessage := lit ''Creating your remix...'',
             generationError := Some generation_failed_message, isSaving := False\<rparr>,
           ConsoleLog [lit ''Generating video...'', description example_video] #
           [GenerateVideos (video_params (description example_video) 1)] @
           [ConsoleError (lit ''Video generation failed:'') (Rejection (lit ''API key not valid''))])"
    by (rule handleSaveEdit_failure [OF rejecting_run])
  from ne show ?thesis
    unfolding r by (simp add: editing_state_def)
qed

text \<open>
  C6 (amended). The view is always one of gallery and history. In every state the
  application can reach, \<open>isPlaying\<close> holds exactly when \<open>playingVideo\<close> is set, and while
  \<open>editingVideo\<close> is set the application is neither playing nor saving; it may also be
  in none of the three modes. Every operation preserves this.
\<close>

theorem modal_flags_invariant:
  assumes "reachable w"
  shows "(view (app w) = Gallery \<or> view (app w) = History) \<and>
         (isPlaying (app w) \<longleftrightarrow> playingVideo (app w) \<noteq> None) \<and>
         (editingVideo (app w) = None \<or> (\<not> isPlaying (app w) \<and> \<not> isSaving (app w))) \<and>
         (\<forall>w'. step w w' \<longrightarrow>
            (view (app w') = Gallery \<or> view (app w') = History) \<and>
            (isPlaying (app w') \<longleftrightarrow> playingVideo (app w') \<noteq> None) \<and>
            (editingVideo (app w') = None \<or> (\<not> isPlaying (app w') \<and> \<not> isSaving (app w'))))"
proof -
  have v: "view s = Gallery \<or> view s = History" for s :: app_state
    by (cases "view s") simp_all
  have i: "(isPlaying (app u) \<longleftrightarrow> playingVideo (app u) \<noteq> None) \<and>
         (editingVideo (app u) = None \<or> (\<not> isPlaying (app u) \<and> \<not> isSaving (app u)))"
    if "flags_consistent u" for u
    using that unfolding flags_consistent_def by blast
  from assms have c: "flags_consistent w" by (rule reachable_flags_consistent)
  have "flags_consistent w'" if "step w w'" for w'
    using that c by (rule flags_consistent_step)
  with i c v show ?thesis by blast
qed

theorem modal_flags_invariant_witness:
  "view (app generating_world) = Gallery \<and>
   \<not> isPlaying (app generating_world) \<and> playingVideo (app generating_world) = None \<and>
   editingVideo (app generating_world) = None"
  using modal_flags_invariant [OF reachable_generating_world]
  by (simp add: generating_world_app initial_state_def)

text \<open>On load the application is not editing, not playing and not saving.\<close>

theorem no_modal_state_counterexample:
  "reachable (load [example_video] []) \<and>
   editingVideo (app (load [example_video] [])) = None \<and>
   \<not> (isPlaying (app (load [example_video] [])) \<and>
      playingVideo (app (load [example_video] [])) \<noteq> None) \<and>
   \<not> isSaving (app (load [example_video] []))"
  by (simp add: reachable.loaded) (simp add: load_def initial_state_def)

text \<open>
  C7. The history is held in memory only: no operation, neither a handler nor the
  settling of a request, changes the browser's persistent storage, and a page load
  starts from the \<open>useState\<close> initialisers whatever was stored or generated before, so
  the history is empty after every load and what was generated is lost on reload.
\<close>

theorem history_is_transient:
  assumes "step w w'"
  shows "persistent w' = persistent w \<and>
         app (reload MOCK_VIDEOS w') = initial_state MOCK_VIDEOS \<and>
         generatedVideosHistory (app (reload MOCK_VIDEOS w')) = [] \<and>
         generatedVideosHistory (app (load MOCK_VIDEOS store)) = []"
  using step_persistent [OF assms]
  by (simp add: reload_def load_def initial_state_def)

theorem history_is_transient_witness:
  "persistent generated_world = persistent generating_world \<and>
   length (generatedVideosHistory (app generated_world)) = 1 \<and>
   app (reload [example_video] generated_world) = initial_state [example_video] \<and>
   generatedVideosHistory (app (reload [example_video] generated_world)) = []"
proof -
  have "length (generatedVideosHistory (app generated_world)) = 1"
    by (simp add: generated_world_def generating_world_app handleGenerateNewVideo_settle_def
        Let_def initial_state_def)
  with history_is_transient [OF step_generated_world, of "[example_video]" "[]"]
  show ?thesis by blast
qed



text \<open>
  C9. If the new-video prompt is empty or consists only of whitespace,
  \<open>handleGenerateNewVideo\<close> returns at once: it makes no generation request (it has no
  effect at all) and the whole application state is unchanged.
\<close>

theorem blank_prompt_is_noop:
  "\<forall>c \<in> set (newVideoPrompt s). is_whitespace c \<Longrightarrow> handleGenerateNewVideo env s = Some (s, [])"
  by (simp add: handleGenerateNewVideo_def trim_blank)

theorem blank_prompt_is_noop_witness:
  "handleGenerateNewVideo example_env
     ((initial_state [example_video])\<lparr>newVideoPrompt := [0x20, 0x09, 0xA0, 0x0A]\<rparr>) =
   Some ((initial_state [example_video])\<lparr>newVideoPrompt := [0x20, 0x09, 0xA0, 0x0A]\<rparr>, [])"
  using blank_prompt_is_noop
    [of "(initial_state [example_video])\<lparr>newVideoPrompt := [0x20, 0x09, 0xA0, 0x0A]\<rparr>" example_env]
  by (simp add: is_whitespace_def)

text \<open>
  C10. For a non-empty history list, \<open>HistoryPage\<close> renders one card per video, sorted by
  \<open>createdAt\<close> in descending order (newest first); it sorts a copy, so every array that
  existed before the call, the input list among them, is unchanged. For the empty list
  it renders the empty-state message and no cards.
\<close>

theorem HistoryPage_newest_first:
  assumes "r < length h"
  shows "\<exists>page h'. HistoryPage h r lid = Some (page, h') \<and>
           take (length h) h' = h \<and>
           (h ! r = [] \<longrightarrow> page = EmptyState) \<and>
           (h ! r \<noteq> [] \<longrightarrow>
              (\<exists>cards. page = Cards cards \<and>
                 sorted_wrt (\<lambda>a b. createdAt b \<le> createdAt a) (map card_video cards) \<and>
                 mset (map card_video cards) = mset (h ! r) \<and>
                 (\<forall>c \<in> set cards. key c = video_id (card_video c) \<and>
                    isLoading c = (lid = Some (video_id (card_video c))))))"
proof (cases "h ! r = []")
  case True
  with assms show ?thesis by (simp add: HistoryPage_def)
next
  case False
  let ?sorted = "array_sort (\<lambda>a b. createdAt b - createdAt a) (h ! r)"
  let ?cards = "map (\<lambda>v. \<lparr>key = video_id v, card_video = v,
                      isLoading = (lid = Some (video_id v))\<rparr>) ?sorted"
  have run: "HistoryPage h r lid = Some (Cards ?cards, h @ [?sorted])"
    using assms False by (simp add: HistoryPage_def spread_def sort_in_place_def)
  have cv: "map card_video ?cards = ?sorted"
    by (simp add: comp_def)
  have srt: "sorted_wrt (\<lambda>a b. createdAt b \<le> createdAt a) (map card_video ?cards)"
    unfolding cv by (rule sorted_array_sort)
  have perm: "mset (map card_video ?cards) = mset (h ! r)"
    unfolding cv by (rule mset_array_sort)
  have each: "\<forall>c \<in> set ?cards. key c = video_id (card_video c) \<and>
                isLoading c = (lid = Some (video_id (card_video c)))"
    by auto
  have frame: "take (length h) (h @ [?sorted]) = h"
    by simp
  from False run srt perm each frame show ?thesis
    by blast
qed

theorem HistoryPage_newest_first_witness:
  "(1::nat) < length [[], example_history] \<and>
   (\<exists>page h'. HistoryPage [[], example_history] 1 (Some (lit ''b'')) = Some (page, h') \<and>
      take (length [[], example_history]) h' = [[], example_history] \<and>
      (\<exists>cards. page = Cards cards \<and> map (\<lambda>c. createdAt (card_video c)) cards = [300, 200, 100] \<and>
         map isLoading cards = [True, False, False]))"
proof -
  have run: "HistoryPage [[], example_history] 1 (Some (lit ''b'')) =
      Some (Cards (map (\<lambda>v. \<lparr>key = video_id v, card_video = v,
                              isLoading = (Some (lit ''b'') = Some (video_id v))\<rparr>)
                    [example_history ! 1, example_history ! 2, example_history ! 0]),
            [[], example_history, [example_history ! 1, example_history ! 2, example_history ! 0]])"
    by (simp add: HistoryPage_def spread_def sort_in_place_def array_sort_def example_history_def)
  have hyp: "(1::nat) < length [[], example_history]"
    by simp
  from HistoryPage_newest_first [OF hyp, of "Some (lit ''b'')"] run show ?thesis
    by (simp add: example_history_def lit_def)
qed

end
